theory Spec2Isabelle
  imports Complex_Main "HOL-Library.Word"
begin

section \<open>The flap application of the VESC firmware (applications/app_flap.c)\<close>

text \<open>
  The application is one polling thread (\<open>my_thread\<close>) and a terminal command
  (\<open>flap\<close>). The thread's loop body is embedded as a function from the state at the top
  of an iteration and the values the iteration reads from its environment to the list
  of calls it makes into the firmware, in program order, and the state at the end of the
  iteration.

  C \<open>int\<close> is a 32-bit word read as two's complement (\<open>sint\<close>), compared with the
  signed orders \<open><s\<close> and \<open>\<le>s\<close>; \<open>++\<close>, \<open>--\<close> and \<open>-=\<close> wrap around, as they do on the
  target (C leaves signed overflow undefined; the counters are shown never to reach it).
  C \<open>float\<close> is idealised as \<open>real\<close>: rounding is not modelled.
\<close>

subsection \<open>State\<close>

type_synonym c_int = "32 word"

text \<open>
  The file's static variables (lines 48--55) and the locals of \<open>my_thread\<close> that live
  across iterations (lines 135--143).
\<close>

record flap_state =
  stop_now :: bool
  is_running :: bool
  cmd_flap_trigger :: bool
  flap_direction :: c_int
  flap_button :: bool
  pio_button :: bool
  rxpin_button :: bool
  flap_hold_cnt :: c_int
  pio_hold_cnt :: c_int
  rxpin_hold_cnt :: c_int
  flap_count_ms :: c_int

definition FLAP_OPEN :: c_int where
  "FLAP_OPEN = 0"

definition FLAP_CLOSE :: c_int where
  "FLAP_CLOSE = 1"

subsection \<open>Calls into the firmware\<close>

datatype pad = HW_ICU | HW_UART_RX | HW_UART_TX

text \<open>Every call the thread makes into the rest of the firmware, with its arguments.\<close>

datatype event =
    ChRegSetThreadName string
  | PalSetPadMode pad
  | Mc_interface_get_configuration
  | Timeout_reset
  | PalReadPad pad
  | Commands_printf string
  | Comm_can_set_duty nat real
  | Comm_can_set_current nat real
  | Comm_can_set_current_brake nat real
  | Mc_interface_set_duty real
  | ChThdSleepMilliseconds nat

text \<open>
  What one iteration reads from its environment: the levels of the three pads
  (\<open>True\<close> is the high level; the buttons pull the pad low) and
  \<open>mcconf->l_max_duty\<close>, which line 184 reads twice and is taken to be the same
  both times.
\<close>

record tick_input =
  pad_icu :: bool
  pad_uart_rx :: bool
  pad_uart_tx :: bool
  l_max_duty :: real

subsection \<open>utils\_map\<close>

text \<open>
  Modelled from the spec: \<open>utils_map\<close> is defined in the firmware's utils.c, which is
  not among the sources. The specification says the duty is "linearly mapped from
  DriveState in {0,1} to [-maxDuty, +maxDuty] (0 to -maxDuty, 1 to +maxDuty)": the
  linear map that takes \<open>in_min\<close> to \<open>out_min\<close> and \<open>in_max\<close> to \<open>out_max\<close>.
\<close>

definition utils_map :: "real \<Rightarrow> real \<Rightarrow> real \<Rightarrow> real \<Rightarrow> real \<Rightarrow> real" where
  "utils_map x in_min in_max out_min out_max =
     (x - in_min) * (out_max - out_min) / (in_max - in_min) + out_min"

subsection \<open>flap\_toggle (lines 58--65)\<close>

definition direction_label :: "c_int \<Rightarrow> string" where
  "direction_label d = (if d \<noteq> 0 then ''open'' else ''close'')"

definition flap_toggle :: "flap_state \<Rightarrow> event list \<times> flap_state" where
  "flap_toggle s =
     (let s1 = (if flap_direction s \<noteq> 0 then s\<lparr>flap_direction := 0\<rparr>
                else s\<lparr>flap_direction := 1\<rparr>)
      in ([Commands_printf (''new flap direction '' @ direction_label (flap_direction s1) @ [CHR 0x0A])],
          s1))"

subsection \<open>The terminal command and the stop request\<close>

text \<open>\<open>flap\<close> (lines 223--225), called by the terminal, outside the thread.\<close>

definition flap :: "flap_state \<Rightarrow> flap_state" where
  "flap s = s\<lparr>cmd_flap_trigger := True\<rparr>"

text \<open>The write of \<open>app_custom_stop\<close> that the thread observes (line 92).\<close>

definition stop_request :: "flap_state \<Rightarrow> flap_state" where
  "stop_request s = s\<lparr>stop_now := True\<rparr>"

subsection \<open>my\_thread: entry (lines 105--143)\<close>

definition my_thread_entry :: "flap_state \<Rightarrow> event list \<times> flap_state" where
  "my_thread_entry s =
     ([ChRegSetThreadName ''App Custom'',
       PalSetPadMode HW_UART_TX, PalSetPadMode HW_ICU, PalSetPadMode HW_UART_RX,
       Mc_interface_get_configuration],
      s\<lparr>is_running := True,
        flap_button := False, pio_button := False, rxpin_button := False,
        flap_hold_cnt := 0, pio_hold_cnt := 0, rxpin_hold_cnt := 0,
        flap_count_ms := 0\<rparr>)"

subsection \<open>my\_thread: the loop body (lines 152--214)\<close>

text \<open>Lines 156--158: the three pads are read, a low level is a pressed button.\<close>

definition sample_buttons :: "tick_input \<Rightarrow> flap_state \<Rightarrow> event list \<times> flap_state" where
  "sample_buttons inp s =
     ([PalReadPad HW_ICU, PalReadPad HW_UART_RX, PalReadPad HW_UART_TX],
      s\<lparr>pio_button := \<not> pad_icu inp,
        rxpin_button := \<not> pad_uart_rx inp,
        flap_button := \<not> pad_uart_tx inp\<rparr>)"

text \<open>Lines 160--174, one counter: \<open>if (b) c++; else if (c > 0) c--;\<close>\<close>

definition hold_cnt_update :: "bool \<Rightarrow> c_int \<Rightarrow> c_int" where
  "hold_cnt_update button cnt =
     (if button then cnt + 1 else if 0 <s cnt then cnt - 1 else cnt)"

definition update_hold_cnts :: "flap_state \<Rightarrow> flap_state" where
  "update_hold_cnts s =
     (let s1 = s\<lparr>flap_hold_cnt := hold_cnt_update (flap_button s) (flap_hold_cnt s)\<rparr>;
          s2 = s1\<lparr>pio_hold_cnt := hold_cnt_update (pio_button s1) (pio_hold_cnt s1)\<rparr>
      in s2\<lparr>rxpin_hold_cnt := hold_cnt_update (rxpin_button s2) (rxpin_hold_cnt s2)\<rparr>)"

text \<open>Lines 177--188.\<close>

definition flap_cond :: "flap_state \<Rightarrow> bool" where
  "flap_cond s = (10 <s flap_hold_cnt s \<or> cmd_flap_trigger s)"

definition flap_block :: "tick_input \<Rightarrow> flap_state \<Rightarrow> event list \<times> flap_state" where
  "flap_block inp s =
     (if flap_cond s then
        (let s1 = s\<lparr>flap_hold_cnt := 0\<rparr>;
             s2 = s1\<lparr>cmd_flap_trigger := False\<rparr>;
             (ev, s3) = flap_toggle s2;
             s4 = s3\<lparr>flap_count_ms := 8000\<rparr>;
             duty = utils_map (real_of_int (sint (flap_direction s4))) 0 1
                      (- l_max_duty inp) (l_max_duty inp)
         in ([Commands_printf ''flap button pressed''] @ ev @
             [Comm_can_set_duty 99 duty, Mc_interface_set_duty duty,
              ChThdSleepMilliseconds 500],
             s4))
      else ([], s))"

text \<open>Lines 191--196.\<close>

definition rxpin_cond :: "flap_state \<Rightarrow> bool" where
  "rxpin_cond s = (5 <s rxpin_hold_cnt s)"

definition rxpin_block :: "flap_state \<Rightarrow> event list \<times> flap_state" where
  "rxpin_block s =
     (if rxpin_cond s then
        ([Commands_printf ''rxpin button pressed'', Comm_can_set_current 99 1,
          ChThdSleepMilliseconds 500],
         s\<lparr>rxpin_hold_cnt := 0\<rparr>)
      else ([], s))"

text \<open>Lines 199--204.\<close>

definition pio_cond :: "flap_state \<Rightarrow> bool" where
  "pio_cond s = (5 <s pio_hold_cnt s)"

definition pio_block :: "flap_state \<Rightarrow> event list \<times> flap_state" where
  "pio_block s =
     (if pio_cond s then
        ([Commands_printf ''piopin button pressed'', Comm_can_set_current_brake 99 1,
          ChThdSleepMilliseconds 500],
         s\<lparr>pio_hold_cnt := 0\<rparr>)
      else ([], s))"

text \<open>Lines 207--214.\<close>

definition delay :: c_int where
  "delay = 10"

definition countdown_block :: "flap_state \<Rightarrow> event list \<times> flap_state" where
  "countdown_block s =
     (let s1 = (if 0 <s flap_count_ms s then s\<lparr>flap_count_ms := flap_count_ms s - delay\<rparr>
                else s)
      in ((if flap_count_ms s1 \<le>s 0 then [Mc_interface_set_duty 0] else []) @
          [ChThdSleepMilliseconds (nat (sint delay))],
          s1))"

text \<open>
  One pass through lines 152--214: what an iteration does once it is past the stop
  check.
\<close>

definition my_thread_tick :: "tick_input \<Rightarrow> flap_state \<Rightarrow> event list \<times> flap_state" where
  "my_thread_tick inp s =
     (let (e1, s1) = sample_buttons inp s;
          s2 = update_hold_cnts s1;
          (e3, s3) = flap_block inp s2;
          (e4, s4) = rxpin_block s3;
          (e5, s5) = pio_block s4;
          (e6, s6) = countdown_block s5
      in ([Timeout_reset] @ e1 @ e3 @ e4 @ e5 @ e6, s6))"

subsection \<open>my\_thread: one iteration of the loop (lines 145--215)\<close>

text \<open>
  \<open>Inl\<close>: the iteration saw \<open>stop_now\<close>, cleared \<open>is_running\<close> and the thread returned.
  \<open>Inr\<close>: the iteration ran the loop body and the loop goes on.
\<close>

definition my_thread_iter :: "tick_input \<Rightarrow> flap_state \<Rightarrow> flap_state + event list \<times> flap_state" where
  "my_thread_iter inp s =
     (if stop_now s then Inl (s\<lparr>is_running := False\<rparr>) else Inr (my_thread_tick inp s))"

text \<open>The calls an iteration makes: none when the thread returns.\<close>

definition iter_events :: "flap_state + event list \<times> flap_state \<Rightarrow> event list" where
  "iter_events r = (case r of Inl s \<Rightarrow> [] | Inr (ev, s) \<Rightarrow> ev)"

subsection \<open>my\_thread: the loop, against a schedule\<close>

text \<open>
  The loop has no exit but the stop check, so it is run against a finite schedule of
  what happens around it: an iteration of the loop with the values it reads, a call of
  the terminal command between two iterations, or the stop request. The result is the
  list of the iterations that ran their body, each with the calls it made and the state
  it left, and the state when the schedule ends or the thread has returned. Writes of
  the other contexts that land in the middle of an iteration are not modelled.
\<close>

datatype step = Iteration tick_input | Terminal_flap | Stop_request

fun my_thread_loop ::
  "step list \<Rightarrow> flap_state \<Rightarrow> (event list \<times> flap_state) list \<times> flap_state" where
  "my_thread_loop [] s = ([], s)"
| "my_thread_loop (Terminal_flap # steps) s = my_thread_loop steps (flap s)"
| "my_thread_loop (Stop_request # steps) s = my_thread_loop steps (stop_request s)"
| "my_thread_loop (Iteration inp # steps) s =
     (case my_thread_iter inp s of
        Inl s' \<Rightarrow> ([], s')
      | Inr (ev, s') \<Rightarrow>
          (let (tr, s'') = my_thread_loop steps s' in ((ev, s') # tr, s'')))"

text \<open>The thread from its entry: the state it is started in holds the static variables.\<close>

definition my_thread ::
  "step list \<Rightarrow> flap_state \<Rightarrow> (event list \<times> flap_state) list \<times> flap_state" where
  "my_thread steps s = my_thread_loop steps (snd (my_thread_entry s))"

section \<open>Observations used to state the properties\<close>

text \<open>The state in which lines 177, 191 and 199 evaluate their conditions.\<close>

definition counters_updated :: "tick_input \<Rightarrow> flap_state \<Rightarrow> flap_state" where
  "counters_updated inp s = update_hold_cnts (snd (sample_buttons inp s))"

fun is_can_duty :: "event \<Rightarrow> bool" where
  "is_can_duty (Comm_can_set_duty c d) = True"
| "is_can_duty e = False"

fun is_mc_duty :: "event \<Rightarrow> bool" where
  "is_mc_duty (Mc_interface_set_duty d) = True"
| "is_mc_duty e = False"

definition is_duty_cmd :: "event \<Rightarrow> bool" where
  "is_duty_cmd e = (is_can_duty e \<or> is_mc_duty e)"

text \<open>The line \<open>flap_toggle\<close> prints when it leaves the direction \<open>d\<close>.\<close>

definition toggle_log :: "c_int \<Rightarrow> event" where
  "toggle_log d = Commands_printf (''new flap direction '' @ direction_label d @ [CHR 0x0A])"

definition is_toggle_log :: "event \<Rightarrow> bool" where
  "is_toggle_log e = (e = toggle_log 1 \<or> e = toggle_log 0)"

text \<open>The number of calls of \<open>flap_toggle\<close> in a list of calls, counted by its print.\<close>

definition toggles :: "event list \<Rightarrow> nat" where
  "toggles ev = length (filter is_toggle_log ev)"

text \<open>The direction \<open>flap_toggle\<close> leaves when it finds \<open>d\<close> (lines 59--63).\<close>

definition toggled :: "c_int \<Rightarrow> c_int" where
  "toggled d = (if d \<noteq> 0 then 0 else 1)"

text \<open>The duty line 184 computes for the direction \<open>d\<close>.\<close>

definition flap_duty :: "tick_input \<Rightarrow> c_int \<Rightarrow> real" where
  "flap_duty inp d = utils_map (real_of_int (sint d)) 0 1 (- l_max_duty inp) (l_max_duty inp)"

text \<open>What lines 208--210 make of the countdown.\<close>

definition count_down :: "c_int \<Rightarrow> c_int" where
  "count_down ms = (if 0 <s ms then ms - 10 else ms)"

text \<open>
  The hold counter as the specification words it, on unbounded integers: plus one
  while the input is active, minus one while it is inactive and the counter is
  positive, unchanged at zero.
\<close>

definition spec_hold_counter_step :: "bool \<Rightarrow> int \<Rightarrow> int" where
  "spec_hold_counter_step active c = (if active then c + 1 else if 0 < c then c - 1 else c)"

text \<open>The bounds the counters keep between two iterations.\<close>

definition cnt_inv :: "flap_state \<Rightarrow> bool" where
  "cnt_inv s =
     (0 \<le> sint (flap_hold_cnt s) \<and> sint (flap_hold_cnt s) \<le> 10 \<and>
      0 \<le> sint (rxpin_hold_cnt s) \<and> sint (rxpin_hold_cnt s) \<le> 5 \<and>
      0 \<le> sint (pio_hold_cnt s) \<and> sint (pio_hold_cnt s) \<le> 5)"

subsection \<open>Concrete states and inputs\<close>

text \<open>
  The static initialisers of lines 48--55 with \<open>stop_now\<close> cleared by
  \<open>app_custom_start\<close> (line 72), and the locals as \<open>my_thread\<close> initialises them.
\<close>

definition started_state :: flap_state where
  "started_state =
     \<lparr>stop_now = False, is_running = True, cmd_flap_trigger = False,
      flap_direction = FLAP_OPEN,
      flap_button = False, pio_button = False, rxpin_button = False,
      flap_hold_cnt = 0, pio_hold_cnt = 0, rxpin_hold_cnt = 0, flap_count_ms = 0\<rparr>"

text \<open>No button pressed (every pad high), and the flap button alone pressed.\<close>

definition released :: tick_input where
  "released = \<lparr>pad_icu = True, pad_uart_rx = True, pad_uart_tx = True, l_max_duty = 0.95\<rparr>"

definition flap_pressed :: tick_input where
  "flap_pressed = \<lparr>pad_icu = True, pad_uart_rx = True, pad_uart_tx = False, l_max_duty = 0.95\<rparr>"

text \<open>Every button pressed.\<close>

definition all_pressed :: tick_input where
  "all_pressed = \<lparr>pad_icu = False, pad_uart_rx = False, pad_uart_tx = False, l_max_duty = 0.95\<rparr>"

text \<open>The flap button held for ten iterations after the start.\<close>

definition held_10 :: flap_state where
  "held_10 = snd (my_thread_loop (replicate 10 (Iteration flap_pressed)) started_state)"

text \<open>The three counters one step below firing.\<close>

definition all_held :: flap_state where
  "all_held = started_state\<lparr>flap_hold_cnt := 10, pio_hold_cnt := 5, rxpin_hold_cnt := 5\<rparr>"

subsection \<open>Runs of iterations\<close>

text \<open>
  The iterations the loop runs on the given inputs when nothing else happens in
  between: each with the calls it made and the state it left.
\<close>

definition iterations :: "tick_input list \<Rightarrow> flap_state \<Rightarrow> (event list \<times> flap_state) list" where
  "iterations inps s = fst (my_thread_loop (map Iteration inps) s)"

definition no_toggle :: "event list \<times> flap_state \<Rightarrow> bool" where
  "no_toggle r = (toggles (fst r) = 0)"

section \<open>Lemmas\<close>

subsection \<open>Signed arithmetic without overflow\<close>

lemma sint_sub10: "0 < sint (x::32 word) \<Longrightarrow> sint (x - 10) = sint x - 10"
proof -
  assume a: "0 < sint x"
  have b: "sint x < 2 ^ 31" using sint_lt [of x] by simp
  have "sint (x - 10) = signed_take_bit 31 (sint x - 10)"
    by (simp add: sint_word_ariths)
  also have "\<dots> = sint x - 10"
    by (rule signed_take_bit_int_eq_self) (use a b in simp_all)
  finally show ?thesis .
qed

lemma sint_sub1: "0 < sint (x::32 word) \<Longrightarrow> sint (x - 1) = sint x - 1"
proof -
  assume a: "0 < sint x"
  have b: "sint x < 2 ^ 31" using sint_lt [of x] by simp
  have "sint (x - 1) = signed_take_bit 31 (sint x - 1)"
    by (simp add: sint_word_ariths)
  also have "\<dots> = sint x - 1"
    by (rule signed_take_bit_int_eq_self) (use a b in simp_all)
  finally show ?thesis .
qed

lemma sint_add1: "0 \<le> sint (x::32 word) \<Longrightarrow> sint x \<le> 10 \<Longrightarrow> sint (x + 1) = sint x + 1"
proof -
  assume a: "0 \<le> sint x" "sint x \<le> 10"
  have "sint (x + 1) = signed_take_bit 31 (sint x + 1)"
    by (simp add: sint_word_ariths)
  also have "\<dots> = sint x + 1"
    by (rule signed_take_bit_int_eq_self) (use a in simp_all)
  finally show ?thesis .
qed

lemma hold_cnt_update_sint:
  assumes "0 \<le> sint c" "sint c \<le> 10"
  shows "sint (hold_cnt_update b c) = spec_hold_counter_step b (sint c)"
  using assms
  by (simp add: hold_cnt_update_def spec_hold_counter_step_def word_sless_alt sint_add1 sint_sub1)

subsection \<open>The blocks of the loop body, field by field\<close>

lemma tick_unfold:
  "my_thread_tick inp s =
     (let s2 = counters_updated inp s;
          r3 = flap_block inp s2;
          r4 = rxpin_block (snd r3);
          r5 = pio_block (snd r4);
          r6 = countdown_block (snd r5)
      in (Timeout_reset # PalReadPad HW_ICU # PalReadPad HW_UART_RX # PalReadPad HW_UART_TX #
            fst r3 @ fst r4 @ fst r5 @ fst r6, snd r6))"
  by (simp add: my_thread_tick_def counters_updated_def sample_buttons_def Let_def split_def)

lemma counters_updated_fields:
  "flap_hold_cnt (counters_updated inp s) = hold_cnt_update (\<not> pad_uart_tx inp) (flap_hold_cnt s)"
  "pio_hold_cnt (counters_updated inp s) = hold_cnt_update (\<not> pad_icu inp) (pio_hold_cnt s)"
  "rxpin_hold_cnt (counters_updated inp s) = hold_cnt_update (\<not> pad_uart_rx inp) (rxpin_hold_cnt s)"
  "cmd_flap_trigger (counters_updated inp s) = cmd_flap_trigger s"
  "flap_direction (counters_updated inp s) = flap_direction s"
  "flap_count_ms (counters_updated inp s) = flap_count_ms s"
  "stop_now (counters_updated inp s) = stop_now s"
  "is_running (counters_updated inp s) = is_running s"
  by (simp_all add: counters_updated_def update_hold_cnts_def sample_buttons_def Let_def)

lemma flap_toggle_eq:
  "flap_toggle s =
     ([toggle_log (toggled (flap_direction s))], s\<lparr>flap_direction := toggled (flap_direction s)\<rparr>)"
  by (simp add: flap_toggle_def toggle_log_def toggled_def Let_def)

lemma flap_block_events:
  "fst (flap_block inp s) =
     (if flap_cond s then
        [Commands_printf ''flap button pressed'', toggle_log (toggled (flap_direction s)),
         Comm_can_set_duty 99 (flap_duty inp (toggled (flap_direction s))),
         Mc_interface_set_duty (flap_duty inp (toggled (flap_direction s))),
         ChThdSleepMilliseconds 500]
      else [])"
  by (simp add: flap_block_def flap_toggle_eq flap_duty_def Let_def)

lemma flap_block_fields:
  "flap_hold_cnt (snd (flap_block inp s)) = (if flap_cond s then 0 else flap_hold_cnt s)"
  "cmd_flap_trigger (snd (flap_block inp s)) = False"
  "flap_direction (snd (flap_block inp s)) =
     (if flap_cond s then toggled (flap_direction s) else flap_direction s)"
  "flap_count_ms (snd (flap_block inp s)) = (if flap_cond s then 8000 else flap_count_ms s)"
  "rxpin_hold_cnt (snd (flap_block inp s)) = rxpin_hold_cnt s"
  "pio_hold_cnt (snd (flap_block inp s)) = pio_hold_cnt s"
  "stop_now (snd (flap_block inp s)) = stop_now s"
  by (auto simp add: flap_block_def flap_toggle_eq Let_def flap_cond_def)

lemma rxpin_block_events:
  "fst (rxpin_block s) =
     (if rxpin_cond s then
        [Commands_printf ''rxpin button pressed'', Comm_can_set_current 99 1,
         ChThdSleepMilliseconds 500]
      else [])"
  by (simp add: rxpin_block_def)

lemma rxpin_block_fields:
  "flap_hold_cnt (snd (rxpin_block s)) = flap_hold_cnt s"
  "cmd_flap_trigger (snd (rxpin_block s)) = cmd_flap_trigger s"
  "flap_direction (snd (rxpin_block s)) = flap_direction s"
  "flap_count_ms (snd (rxpin_block s)) = flap_count_ms s"
  "rxpin_hold_cnt (snd (rxpin_block s)) = (if rxpin_cond s then 0 else rxpin_hold_cnt s)"
  "pio_hold_cnt (snd (rxpin_block s)) = pio_hold_cnt s"
  "stop_now (snd (rxpin_block s)) = stop_now s"
  by (simp_all add: rxpin_block_def)

lemma pio_block_events:
  "fst (pio_block s) =
     (if pio_cond s then
        [Commands_printf ''piopin button pressed'', Comm_can_set_current_brake 99 1,
         ChThdSleepMilliseconds 500]
      else [])"
  by (simp add: pio_block_def)

lemma pio_block_fields:
  "flap_hold_cnt (snd (pio_block s)) = flap_hold_cnt s"
  "cmd_flap_trigger (snd (pio_block s)) = cmd_flap_trigger s"
  "flap_direction (snd (pio_block s)) = flap_direction s"
  "flap_count_ms (snd (pio_block s)) = flap_count_ms s"
  "rxpin_hold_cnt (snd (pio_block s)) = rxpin_hold_cnt s"
  "pio_hold_cnt (snd (pio_block s)) = (if pio_cond s then 0 else pio_hold_cnt s)"
  "stop_now (snd (pio_block s)) = stop_now s"
  by (simp_all add: pio_block_def)

lemma countdown_block_events:
  "fst (countdown_block s) =
     (if count_down (flap_count_ms s) \<le>s 0 then [Mc_interface_set_duty 0] else []) @
     [ChThdSleepMilliseconds 10]"
  by (simp add: countdown_block_def count_down_def delay_def Let_def)

lemma countdown_block_fields:
  "flap_hold_cnt (snd (countdown_block s)) = flap_hold_cnt s"
  "cmd_flap_trigger (snd (countdown_block s)) = cmd_flap_trigger s"
  "flap_direction (snd (countdown_block s)) = flap_direction s"
  "flap_count_ms (snd (countdown_block s)) = count_down (flap_count_ms s)"
  "rxpin_hold_cnt (snd (countdown_block s)) = rxpin_hold_cnt s"
  "pio_hold_cnt (snd (countdown_block s)) = pio_hold_cnt s"
  "stop_now (snd (countdown_block s)) = stop_now s"
  by (simp_all add: countdown_block_def count_down_def delay_def Let_def)

lemmas block_fields =
  flap_block_fields rxpin_block_fields pio_block_fields countdown_block_fields

lemma rxpin_cond_flap_block: "rxpin_cond (snd (flap_block inp s)) = rxpin_cond s"
  by (simp add: rxpin_cond_def flap_block_fields)

lemma pio_cond_blocks: "pio_cond (snd (rxpin_block (snd (flap_block inp s)))) = pio_cond s"
  by (simp add: pio_cond_def block_fields)

subsection \<open>One pass through the loop body\<close>

lemma tick_fields:
  "flap_hold_cnt (snd (my_thread_tick inp s)) =
     (if flap_cond (counters_updated inp s) then 0 else flap_hold_cnt (counters_updated inp s))"
  "rxpin_hold_cnt (snd (my_thread_tick inp s)) =
     (if rxpin_cond (counters_updated inp s) then 0 else rxpin_hold_cnt (counters_updated inp s))"
  "pio_hold_cnt (snd (my_thread_tick inp s)) =
     (if pio_cond (counters_updated inp s) then 0 else pio_hold_cnt (counters_updated inp s))"
  "cmd_flap_trigger (snd (my_thread_tick inp s)) = False"
  "flap_direction (snd (my_thread_tick inp s)) =
     (if flap_cond (counters_updated inp s) then toggled (flap_direction s) else flap_direction s)"
  "flap_count_ms (snd (my_thread_tick inp s)) =
     count_down (if flap_cond (counters_updated inp s) then 8000 else flap_count_ms s)"
  "stop_now (snd (my_thread_tick inp s)) = stop_now s"
  by (simp_all add: tick_unfold Let_def block_fields rxpin_cond_flap_block pio_cond_blocks
        counters_updated_fields)

lemma tick_events:
  "fst (my_thread_tick inp s) =
     [Timeout_reset, PalReadPad HW_ICU, PalReadPad HW_UART_RX, PalReadPad HW_UART_TX] @
     (if flap_cond (counters_updated inp s) then
        [Commands_printf ''flap button pressed'', toggle_log (toggled (flap_direction s)),
         Comm_can_set_duty 99 (flap_duty inp (toggled (flap_direction s))),
         Mc_interface_set_duty (flap_duty inp (toggled (flap_direction s))),
         ChThdSleepMilliseconds 500]
      else []) @
     (if rxpin_cond (counters_updated inp s) then
        [Commands_printf ''rxpin button pressed'', Comm_can_set_current 99 1,
         ChThdSleepMilliseconds 500]
      else []) @
     (if pio_cond (counters_updated inp s) then
        [Commands_printf ''piopin button pressed'', Comm_can_set_current_brake 99 1,
         ChThdSleepMilliseconds 500]
      else []) @
     (if flap_count_ms (snd (my_thread_tick inp s)) \<le>s 0 then [Mc_interface_set_duty 0] else []) @
     [ChThdSleepMilliseconds 10]"
  unfolding tick_fields
  by (simp add: tick_unfold Let_def flap_block_events rxpin_block_events pio_block_events
        countdown_block_events block_fields rxpin_cond_flap_block pio_cond_blocks
        counters_updated_fields)

subsection \<open>The counters stay within their thresholds\<close>

lemma cnt_inv_tick:
  assumes "cnt_inv s"
  shows "cnt_inv (snd (my_thread_tick inp s))"
proof -
  have f: "sint (flap_hold_cnt (counters_updated inp s)) =
      spec_hold_counter_step (\<not> pad_uart_tx inp) (sint (flap_hold_cnt s))"
    using assms by (simp add: counters_updated_fields hold_cnt_update_sint cnt_inv_def)
  have r: "sint (rxpin_hold_cnt (counters_updated inp s)) =
      spec_hold_counter_step (\<not> pad_uart_rx inp) (sint (rxpin_hold_cnt s))"
    using assms by (simp add: counters_updated_fields hold_cnt_update_sint cnt_inv_def)
  have p: "sint (pio_hold_cnt (counters_updated inp s)) =
      spec_hold_counter_step (\<not> pad_icu inp) (sint (pio_hold_cnt s))"
    using assms by (simp add: counters_updated_fields hold_cnt_update_sint cnt_inv_def)
  have "0 \<le> sint (flap_hold_cnt (snd (my_thread_tick inp s))) \<and>
        sint (flap_hold_cnt (snd (my_thread_tick inp s))) \<le> 10"
    using assms f
    by (auto simp add: tick_fields flap_cond_def word_sless_alt cnt_inv_def
          spec_hold_counter_step_def split: if_splits)
  moreover have "0 \<le> sint (rxpin_hold_cnt (snd (my_thread_tick inp s))) \<and>
        sint (rxpin_hold_cnt (snd (my_thread_tick inp s))) \<le> 5"
    using assms r
    by (auto simp add: tick_fields rxpin_cond_def word_sless_alt cnt_inv_def
          spec_hold_counter_step_def split: if_splits)
  moreover have "0 \<le> sint (pio_hold_cnt (snd (my_thread_tick inp s))) \<and>
        sint (pio_hold_cnt (snd (my_thread_tick inp s))) \<le> 5"
    using assms p
    by (auto simp add: tick_fields pio_cond_def word_sless_alt cnt_inv_def
          spec_hold_counter_step_def split: if_splits)
  ultimately show ?thesis by (simp add: cnt_inv_def)
qed

lemma cnt_inv_entry: "cnt_inv (snd (my_thread_entry g))"
  by (simp add: cnt_inv_def my_thread_entry_def)

lemma cnt_inv_loop:
  "cnt_inv s \<Longrightarrow> cnt_inv (snd (my_thread_loop steps s)) \<and>
     (\<forall>r \<in> set (fst (my_thread_loop steps s)). cnt_inv (snd r))"
proof (induction steps s rule: my_thread_loop.induct)
  case (1 s)
  then show ?case by simp
next
  case (2 steps s)
  then show ?case by (simp add: flap_def cnt_inv_def)
next
  case (3 steps s)
  then show ?case by (simp add: stop_request_def cnt_inv_def)
next
  case (4 inp steps s)
  show ?case
  proof (cases "stop_now s")
    case True
    then show ?thesis using 4(2) by (simp add: my_thread_iter_def cnt_inv_def)
  next
    case False
    have iter: "my_thread_iter inp s = Inr (fst (my_thread_tick inp s), snd (my_thread_tick inp s))"
      using False by (simp add: my_thread_iter_def)
    have inv': "cnt_inv (snd (my_thread_tick inp s))"
      using 4(2) by (rule cnt_inv_tick)
    from 4(1)[OF iter refl inv'] inv' show ?thesis
      by (simp add: iter split_def Let_def)
  qed
qed

subsection \<open>Constants of the loop, compared as signed words\<close>

lemma signed_consts:
  "0 <s (8000::32 word)" "0 <s (7990::32 word)" "\<not> (7990::32 word) \<le>s 0"
  "\<not> (7980::32 word) \<le>s 0" "\<not> 10 <s (1::32 word)" "\<not> 10 <s (0::32 word)"
  "10 <s (11::32 word)" "\<not> 0 <s (0::32 word)" "(0::32 word) \<le>s 0"
  "5 <s (6::32 word)"
  by (simp_all add: word_sless_alt word_sle_eq)

lemma count_down_8000: "count_down 8000 = 7990" "count_down 7990 = 7980"
  by (simp_all add: count_down_def signed_consts)

lemma count_down_sint:
  assumes "sint ms = 10 * int m"
  shows "sint (count_down ms) = 10 * int (m - 1)"
proof (cases "m = 0")
  case True
  then show ?thesis using assms by (simp add: count_down_def word_sless_alt)
next
  case False
  then have "0 < sint ms" using assms by simp
  then show ?thesis
    using assms False by (simp add: count_down_def word_sless_alt sint_sub10 of_nat_diff)
qed

subsection \<open>Toggles and duty commands of one pass\<close>

lemma toggle_log_not_duty: "\<not> is_can_duty (toggle_log d)" "\<not> is_mc_duty (toggle_log d)"
  by (simp_all add: toggle_log_def)

lemma toggled_cases: "toggled d = 0 \<or> toggled d = 1"
  by (simp add: toggled_def)

lemma is_toggle_log_simps:
  "is_toggle_log (toggle_log (toggled d))"
  "\<not> is_toggle_log Timeout_reset"
  "\<not> is_toggle_log (PalReadPad p)"
  "\<not> is_toggle_log (Commands_printf ''flap button pressed'')"
  "\<not> is_toggle_log (Commands_printf ''rxpin button pressed'')"
  "\<not> is_toggle_log (Commands_printf ''piopin button pressed'')"
  "\<not> is_toggle_log (Comm_can_set_duty c x)"
  "\<not> is_toggle_log (Comm_can_set_current c x)"
  "\<not> is_toggle_log (Comm_can_set_current_brake c x)"
  "\<not> is_toggle_log (Mc_interface_set_duty x)"
  "\<not> is_toggle_log (ChThdSleepMilliseconds n)"
  using toggled_cases [of d]
  by (auto simp add: is_toggle_log_def toggle_log_def direction_label_def)

lemma toggles_tick:
  "toggles (fst (my_thread_tick inp s)) = (if flap_cond (counters_updated inp s) then 1 else 0)"
  by (simp add: toggles_def tick_events is_toggle_log_simps)

lemma duty_cmds_tick:
  "filter is_duty_cmd (fst (my_thread_tick inp s)) =
     (if flap_cond (counters_updated inp s) then
        [Comm_can_set_duty 99 (flap_duty inp (toggled (flap_direction s))),
         Mc_interface_set_duty (flap_duty inp (toggled (flap_direction s)))]
      else []) @
     (if flap_count_ms (snd (my_thread_tick inp s)) \<le>s 0 then [Mc_interface_set_duty 0] else [])"
  by (simp add: tick_events is_duty_cmd_def toggle_log_not_duty)

lemma can_duty_tick:
  "filter is_can_duty (fst (my_thread_tick inp s)) =
     (if flap_cond (counters_updated inp s) then
        [Comm_can_set_duty 99 (flap_duty inp (toggled (flap_direction s)))]
      else [])"
  by (simp add: tick_events toggle_log_not_duty)

lemma mc_duty_tick:
  "filter is_mc_duty (fst (my_thread_tick inp s)) =
     (if flap_cond (counters_updated inp s) then
        [Mc_interface_set_duty (flap_duty inp (toggled (flap_direction s)))]
      else []) @
     (if flap_count_ms (snd (my_thread_tick inp s)) \<le>s 0 then [Mc_interface_set_duty 0] else [])"
  by (simp add: tick_events toggle_log_not_duty)

lemma fired_count_ms:
  "flap_cond (counters_updated inp s) \<Longrightarrow> flap_count_ms (snd (my_thread_tick inp s)) = 7990"
  by (simp add: tick_fields count_down_8000)

lemma flap_duty_cases:
  "flap_duty inp 1 = l_max_duty inp" "flap_duty inp 0 = - l_max_duty inp"
  by (simp_all add: flap_duty_def utils_map_def)

lemma tick_trigger_irrelevant:
  assumes "10 <s flap_hold_cnt (counters_updated inp s)"
  shows "my_thread_tick inp s = my_thread_tick inp (s\<lparr>cmd_flap_trigger := False\<rparr>)"
proof -
  have a: "counters_updated inp (s\<lparr>cmd_flap_trigger := False\<rparr>) =
           (counters_updated inp s)\<lparr>cmd_flap_trigger := False\<rparr>"
    by (simp add: counters_updated_def update_hold_cnts_def sample_buttons_def Let_def)
  have b: "flap_block inp (t\<lparr>cmd_flap_trigger := False\<rparr>) = flap_block inp t"
    if "10 <s flap_hold_cnt t" for t
    using that by (simp add: flap_block_def flap_cond_def flap_toggle_def Let_def)
  show ?thesis
    by (simp add: tick_unfold a b [OF assms])
qed

subsection \<open>The loop on a schedule\<close>

lemma loop_Iteration:
  "\<not> stop_now s \<Longrightarrow>
   my_thread_loop (Iteration inp # steps) s =
     (my_thread_tick inp s # fst (my_thread_loop steps (snd (my_thread_tick inp s))),
      snd (my_thread_loop steps (snd (my_thread_tick inp s))))"
  by (simp add: my_thread_iter_def split_def Let_def)

lemma trigger_clear_loop:
  "\<not> cmd_flap_trigger s \<Longrightarrow> Terminal_flap \<notin> set steps \<Longrightarrow>
   \<not> cmd_flap_trigger (snd (my_thread_loop steps s))"
proof (induction steps s rule: my_thread_loop.induct)
  case (1 s)
  then show ?case by simp
next
  case (2 steps s)
  then show ?case by simp
next
  case (3 steps s)
  then show ?case by (simp add: stop_request_def)
next
  case (4 inp steps s)
  show ?case
  proof (cases "stop_now s")
    case True
    then show ?thesis using 4(2) by (simp add: my_thread_iter_def)
  next
    case False
    have iter: "my_thread_iter inp s = Inr (fst (my_thread_tick inp s), snd (my_thread_tick inp s))"
      using False by (simp add: my_thread_iter_def)
    have "\<not> cmd_flap_trigger (snd (my_thread_tick inp s))" by (simp add: tick_fields)
    from 4(1)[OF iter refl this] 4(3) show ?thesis
      by (simp add: iter split_def Let_def)
  qed
qed

lemma iterations_Nil: "iterations [] s = []"
  by (simp add: iterations_def)

lemma iterations_Cons:
  "\<not> stop_now s \<Longrightarrow>
   iterations (i # inps) s = my_thread_tick i s # iterations inps (snd (my_thread_tick i s))"
  by (simp add: iterations_def loop_Iteration del: my_thread_loop.simps(4))

text \<open>Holding the flap button raises its counter by one per iteration, up to ten.\<close>

lemma pressed_run:
  assumes "\<not> stop_now s" "\<not> cmd_flap_trigger s" "sint (flap_hold_cnt s) = int k" "k + n \<le> 10"
  shows "sint (flap_hold_cnt (snd (my_thread_loop (replicate n (Iteration flap_pressed)) s))) =
         int (k + n)"
  using assms
proof (induction n arbitrary: s k)
  case 0
  then show ?case by simp
next
  case (Suc n)
  define s1 where "s1 = snd (my_thread_tick flap_pressed s)"
  have u: "sint (flap_hold_cnt (counters_updated flap_pressed s)) = int (Suc k)"
    using Suc.prems
    by (simp add: counters_updated_fields hold_cnt_update_def flap_pressed_def sint_add1)
  have nf: "\<not> flap_cond (counters_updated flap_pressed s)"
    using Suc.prems u by (simp add: flap_cond_def word_sless_alt counters_updated_fields)
  have s1: "\<not> stop_now s1" "\<not> cmd_flap_trigger s1" "sint (flap_hold_cnt s1) = int (Suc k)"
    using Suc.prems nf u by (simp_all add: s1_def tick_fields)
  have "sint (flap_hold_cnt (snd (my_thread_loop (replicate n (Iteration flap_pressed)) s1))) =
        int (Suc k + n)"
    using s1 Suc.prems(4) by (intro Suc.IH) simp_all
  then show ?case
    using Suc.prems(1) by (simp add: loop_Iteration s1_def del: my_thread_loop.simps(4))
qed

lemma held_10_cnt: "flap_hold_cnt held_10 = 10"
proof -
  have "sint (flap_hold_cnt held_10) = int (0 + 10)"
    unfolding held_10_def
    by (rule pressed_run) (simp_all add: started_state_def)
  then have "sint (flap_hold_cnt held_10) = sint (10 :: 32 word)" by simp
  then show ?thesis by (simp only: word_eq_iff_signed [symmetric])
qed

subsection \<open>The countdown over a run without toggle\<close>

lemma quiet_tick:
  assumes "toggles (fst (my_thread_tick i s)) = 0" and "sint (flap_count_ms s) = 10 * int m"
  shows "sint (flap_count_ms (snd (my_thread_tick i s))) = 10 * int (m - 1)"
    and "filter is_mc_duty (fst (my_thread_tick i s)) =
           (if m \<le> 1 then [Mc_interface_set_duty 0] else [])"
proof -
  have nf: "\<not> flap_cond (counters_updated i s)"
    using assms(1) by (simp add: toggles_tick split: if_splits)
  show c: "sint (flap_count_ms (snd (my_thread_tick i s))) = 10 * int (m - 1)"
    using nf assms(2) by (simp add: tick_fields count_down_sint)
  have "(flap_count_ms (snd (my_thread_tick i s)) \<le>s 0) = (m \<le> 1)"
    unfolding word_sle_eq c by auto
  then show "filter is_mc_duty (fst (my_thread_tick i s)) =
           (if m \<le> 1 then [Mc_interface_set_duty 0] else [])"
    using nf by (simp add: mc_duty_tick)
qed

lemma countdown_run:
  assumes "\<not> stop_now s" and "sint (flap_count_ms s) = 10 * int m"
    and "list_all no_toggle (iterations inps s)"
  shows "length (iterations inps s) = length inps \<and>
         (\<forall>k<length inps.
            sint (flap_count_ms (snd (iterations inps s ! k))) = 10 * int (m - (k + 1)) \<and>
            filter is_mc_duty (fst (iterations inps s ! k)) =
              (if m \<le> k + 1 then [Mc_interface_set_duty 0] else []))"
  using assms
proof (induction inps arbitrary: s m)
  case Nil
  then show ?case by (simp add: iterations_Nil)
next
  case (Cons i inps)
  define s1 where "s1 = snd (my_thread_tick i s)"
  have unf: "iterations (i # inps) s = my_thread_tick i s # iterations inps s1"
    using Cons.prems(1) by (simp add: iterations_Cons s1_def)
  have q0: "no_toggle (my_thread_tick i s)" "list_all no_toggle (iterations inps s1)"
    using Cons.prems(3) by (simp_all add: unf)
  have q: "toggles (fst (my_thread_tick i s)) = 0" "list_all no_toggle (iterations inps s1)"
    using q0 by (simp_all only: no_toggle_def)
  have h: "sint (flap_count_ms s1) = 10 * int (m - 1)"
    "filter is_mc_duty (fst (my_thread_tick i s)) = (if m \<le> 1 then [Mc_interface_set_duty 0] else [])"
    using quiet_tick [OF q(1) Cons.prems(2)] by (simp_all add: s1_def)
  have st: "\<not> stop_now s1"
    using Cons.prems(1) by (simp add: s1_def tick_fields)
  note IH = Cons.IH [OF st h(1) q(2)]
  have len: "length (iterations (i # inps) s) = length (i # inps)"
    using IH by (simp add: unf)
  have "sint (flap_count_ms (snd (iterations (i # inps) s ! k))) = 10 * int (m - (k + 1)) \<and>
        filter is_mc_duty (fst (iterations (i # inps) s ! k)) =
          (if m \<le> k + 1 then [Mc_interface_set_duty 0] else [])"
    if "k < length (i # inps)" for k
  proof (cases k)
    case 0
    then show ?thesis using h by (simp add: unf s1_def)
  next
    case (Suc j)
    then have "j < length inps" using that by simp
    with IH have "sint (flap_count_ms (snd (iterations inps s1 ! j))) = 10 * int (m - 1 - (j + 1)) \<and>
        filter is_mc_duty (fst (iterations inps s1 ! j)) =
          (if m - 1 \<le> j + 1 then [Mc_interface_set_duty 0] else [])"
      by blast
    moreover have "m - 1 - (j + 1) = m - (Suc j + 1)" "(m - 1 \<le> j + 1) = (m \<le> Suc j + 1)"
      by auto
    ultimately show ?thesis by (simp add: unf Suc)
  qed
  with len show ?case by blast
qed

text \<open>With no button pressed and no trigger pending, no iteration toggles.\<close>

lemma quiet_run:
  assumes "\<not> stop_now s" "\<not> cmd_flap_trigger s" "flap_hold_cnt s = 0"
  shows "list_all no_toggle (iterations (replicate n released) s)"
  using assms
proof (induction n arbitrary: s)
  case 0
  then show ?case by (simp add: iterations_Nil)
next
  case (Suc n)
  define s1 where "s1 = snd (my_thread_tick released s)"
  have u: "flap_hold_cnt (counters_updated released s) = 0"
    using Suc.prems
    by (simp add: counters_updated_fields hold_cnt_update_def released_def signed_consts)
  have nf: "\<not> flap_cond (counters_updated released s)"
    using Suc.prems u by (simp add: flap_cond_def counters_updated_fields signed_consts)
  have s1: "\<not> stop_now s1" "\<not> cmd_flap_trigger s1" "flap_hold_cnt s1 = 0"
    using Suc.prems nf u by (simp_all add: s1_def tick_fields)
  have "list_all no_toggle (iterations (replicate n released) s1)"
    using s1 by (rule Suc.IH)
  moreover have "no_toggle (my_thread_tick released s)"
    using nf by (simp add: no_toggle_def toggles_tick)
  ultimately show ?case
    using Suc.prems(1) by (simp add: iterations_Cons s1_def)
qed

section \<open>The properties\<close>

text \<open>
  C1. On an iteration whose flap condition holds, the duty is the value
  \<open>utils_map\<close> gives the new direction on the line through (0, -M) and (1, M), where
  M is \<open>l_max_duty\<close>: +M when the direction is now 1, -M when it is now 0, and the
  direction is one of the two. The duty commands of the iteration are exactly
  \<open>comm_can_set_duty\<close> to peer 99 followed by \<open>mc_interface_set_duty\<close>, both with that
  value.
\<close>

theorem flap_event_duty_signed_max_duty:
  assumes "flap_cond (counters_updated inp s)"
  shows "let (ev, s') = my_thread_tick inp s;
             M = l_max_duty inp;
             duty = (if flap_direction s' = 1 then M else - M)
         in (flap_direction s' = 0 \<or> flap_direction s' = 1) \<and>
            duty = utils_map (real_of_int (sint (flap_direction s'))) 0 1 (- M) M \<and>
            utils_map 1 0 1 (- M) M = M \<and> utils_map 0 0 1 (- M) M = - M \<and>
            filter is_duty_cmd ev = [Comm_can_set_duty 99 duty, Mc_interface_set_duty duty]"
proof -
  have c: "flap_count_ms (snd (my_thread_tick inp s)) = 7990"
    using assms by (rule fired_count_ms)
  have d: "flap_direction (snd (my_thread_tick inp s)) = toggled (flap_direction s)"
    using assms by (simp add: tick_fields)
  show ?thesis
    using toggled_cases [of "flap_direction s"] assms
    by (auto simp add: split_def Let_def duty_cmds_tick c d flap_duty_cases utils_map_def
          signed_consts)
qed

text \<open>The terminal command after the start: the flap goes to direction 1 at duty 0.95.\<close>

theorem flap_event_duty_signed_max_duty_witness:
  "flap_cond (counters_updated released (flap started_state)) \<and>
   flap_direction (snd (my_thread_tick released (flap started_state))) = 1 \<and>
   filter is_duty_cmd (fst (my_thread_tick released (flap started_state))) =
     [Comm_can_set_duty 99 0.95, Mc_interface_set_duty 0.95]"
proof -
  have h: "flap_cond (counters_updated released (flap started_state))"
    by (simp add: flap_cond_def counters_updated_fields flap_def)
  have d: "flap_direction (snd (my_thread_tick released (flap started_state))) = 1"
    using h by (simp add: tick_fields toggled_def flap_def started_state_def FLAP_OPEN_def)
  show ?thesis
    using flap_event_duty_signed_max_duty [OF h] h d
    by (simp add: split_def Let_def released_def)
qed

text \<open>
  C2. An iteration that starts with \<open>flap_hold_cnt\<close> at 10 and reads the flap button
  pressed takes the counter to 11, calls \<open>flap_toggle\<close> once (the direction becomes the
  other one), sends one CAN duty command and one motor duty command, and leaves the
  counter at 0.
\<close>

theorem threshold_crossing_toggles_once:
  assumes "flap_hold_cnt s = 10" and "\<not> pad_uart_tx inp"
  shows "let (ev, s') = my_thread_tick inp s
         in flap_hold_cnt (counters_updated inp s) = 11 \<and>
            toggles ev = 1 \<and>
            flap_direction s' = (if flap_direction s \<noteq> 0 then 0 else 1) \<and>
            length (filter is_can_duty ev) = 1 \<and>
            length (filter is_mc_duty ev) = 1 \<and>
            flap_hold_cnt s' = 0"
proof -
  have u: "flap_hold_cnt (counters_updated inp s) = 11"
    using assms by (simp add: counters_updated_fields hold_cnt_update_def)
  have f: "flap_cond (counters_updated inp s)"
    by (simp add: flap_cond_def u signed_consts)
  show ?thesis
    using f u
    by (simp add: split_def toggles_tick can_duty_tick mc_duty_tick tick_fields toggled_def
          count_down_8000 signed_consts)
qed

text \<open>The eleventh iteration with the flap button held since the start.\<close>

theorem threshold_crossing_toggles_once_witness:
  "flap_hold_cnt held_10 = 10 \<and> \<not> pad_uart_tx flap_pressed \<and>
   toggles (fst (my_thread_tick flap_pressed held_10)) = 1 \<and>
   flap_hold_cnt (snd (my_thread_tick flap_pressed held_10)) = 0"
proof -
  have p: "\<not> pad_uart_tx flap_pressed" by (simp add: flap_pressed_def)
  show ?thesis
    using threshold_crossing_toggles_once [OF held_10_cnt p] held_10_cnt p
    by (simp add: split_def Let_def)
qed

text \<open>
  C3. An iteration that starts with \<open>cmd_flap_trigger\<close> set calls \<open>flap_toggle\<close> once,
  whatever \<open>flap_hold_cnt\<close> is, and leaves the flag cleared. The iteration that follows
  it directly, whatever it reads, finds its flap condition false: it does not toggle,
  keeps the direction and sends no duty command.
\<close>

theorem external_trigger_toggles_once:
  assumes "cmd_flap_trigger s"
  shows "let (ev1, s1) = my_thread_tick i1 s; (ev2, s2) = my_thread_tick i2 s1
         in toggles ev1 = 1 \<and>
            flap_direction s1 = (if flap_direction s \<noteq> 0 then 0 else 1) \<and>
            \<not> cmd_flap_trigger s1 \<and>
            \<not> flap_cond (counters_updated i2 s1) \<and>
            toggles ev2 = 0 \<and>
            flap_direction s2 = flap_direction s1 \<and>
            filter is_duty_cmd ev2 = []"
proof -
  define s1 where "s1 = snd (my_thread_tick i1 s)"
  have f: "flap_cond (counters_updated i1 s)"
    using assms by (simp add: flap_cond_def counters_updated_fields)
  have h: "flap_hold_cnt s1 = 0" "\<not> cmd_flap_trigger s1" "flap_count_ms s1 = 7990"
    using f by (simp_all add: s1_def tick_fields count_down_8000)
  have n: "\<not> flap_cond (counters_updated i2 s1)"
    using h by (simp add: flap_cond_def counters_updated_fields hold_cnt_update_def signed_consts)
  have c: "flap_count_ms (snd (my_thread_tick i2 s1)) = 7980"
    using n h by (simp add: tick_fields count_down_8000)
  show ?thesis
    unfolding split_def Let_def s1_def [symmetric]
    using f n h c
    by (simp add: toggles_tick duty_cmds_tick tick_fields toggled_def s1_def signed_consts)
qed

text \<open>The terminal command with no button touched and the counter at 0.\<close>

theorem external_trigger_toggles_once_witness:
  "cmd_flap_trigger (flap started_state) \<and> flap_hold_cnt (flap started_state) = 0 \<and>
   toggles (fst (my_thread_tick released (flap started_state))) = 1 \<and>
   toggles (fst (my_thread_tick released (snd (my_thread_tick released (flap started_state))))) = 0"
proof -
  have h: "cmd_flap_trigger (flap started_state)" by (simp add: flap_def)
  have c: "flap_hold_cnt (flap started_state) = 0" by (simp add: flap_def started_state_def)
  show ?thesis
    using external_trigger_toggles_once [OF h, of released released] h c
    by (simp add: split_def Let_def)
qed

text \<open>
  C4. Whatever the schedule the thread has run against since its entry, and whatever
  the pads read next, each of the three hold counters is at least 0 before and after
  the counter update of lines 160--174, and the update changes it as the specification
  says: plus one when its input is active, minus one when it is inactive and the
  counter positive, unchanged when inactive at zero; so by at most one. The counters
  never come near the range of \<open>int\<close>, so no increment wraps.
\<close>

theorem hold_counters_nonneg_unit_step:
  "let s = snd (my_thread steps g); s' = counters_updated inp s
   in 0 \<le> sint (flap_hold_cnt s) \<and> 0 \<le> sint (rxpin_hold_cnt s) \<and> 0 \<le> sint (pio_hold_cnt s) \<and>
      0 \<le> sint (flap_hold_cnt s') \<and> 0 \<le> sint (rxpin_hold_cnt s') \<and> 0 \<le> sint (pio_hold_cnt s') \<and>
      sint (flap_hold_cnt s') = spec_hold_counter_step (\<not> pad_uart_tx inp) (sint (flap_hold_cnt s)) \<and>
      sint (rxpin_hold_cnt s') = spec_hold_counter_step (\<not> pad_uart_rx inp) (sint (rxpin_hold_cnt s)) \<and>
      sint (pio_hold_cnt s') = spec_hold_counter_step (\<not> pad_icu inp) (sint (pio_hold_cnt s)) \<and>
      \<bar>sint (flap_hold_cnt s') - sint (flap_hold_cnt s)\<bar> \<le> 1 \<and>
      \<bar>sint (rxpin_hold_cnt s') - sint (rxpin_hold_cnt s)\<bar> \<le> 1 \<and>
      \<bar>sint (pio_hold_cnt s') - sint (pio_hold_cnt s)\<bar> \<le> 1"
proof -
  define s where "s = snd (my_thread steps g)"
  have inv: "cnt_inv s"
    unfolding s_def my_thread_def using cnt_inv_loop [OF cnt_inv_entry] by blast
  have f: "sint (flap_hold_cnt (counters_updated inp s)) =
      spec_hold_counter_step (\<not> pad_uart_tx inp) (sint (flap_hold_cnt s))"
    using inv by (simp add: counters_updated_fields hold_cnt_update_sint cnt_inv_def)
  have r: "sint (rxpin_hold_cnt (counters_updated inp s)) =
      spec_hold_counter_step (\<not> pad_uart_rx inp) (sint (rxpin_hold_cnt s))"
    using inv by (simp add: counters_updated_fields hold_cnt_update_sint cnt_inv_def)
  have p: "sint (pio_hold_cnt (counters_updated inp s)) =
      spec_hold_counter_step (\<not> pad_icu inp) (sint (pio_hold_cnt s))"
    using inv by (simp add: counters_updated_fields hold_cnt_update_sint cnt_inv_def)
  have b: "0 \<le> c \<Longrightarrow> 0 \<le> spec_hold_counter_step a c \<and> \<bar>spec_hold_counter_step a c - c\<bar> \<le> 1"
    for a c
    by (simp add: spec_hold_counter_step_def)
  show ?thesis
    unfolding Let_def s_def [symmetric] f r p
    using inv b by (simp add: cnt_inv_def)
qed

text \<open>
  C5. An iteration that toggles leaves \<open>flap_count_ms\<close> at 8000 less its own decrement
  of 10. In a run of further iterations none of which toggles, the iteration number
  k (from 0) leaves the countdown at 8000 - 10 (k + 2), never below 0, and its only
  motor duty command is \<open>mc_interface_set_duty(0)\<close> from the 800th decrement on; before
  that it sends none.
\<close>

theorem drive_countdown_cuts_duty_at_800th_decrement:
  assumes "flap_cond (counters_updated i0 s0)" and "\<not> stop_now s0"
    and "list_all no_toggle (iterations inps (snd (my_thread_tick i0 s0)))"
  shows "let s1 = snd (my_thread_tick i0 s0); tr = iterations inps s1
         in sint (flap_count_ms s1) = 8000 - 10 \<and>
            length tr = length inps \<and>
            (\<forall>k<length inps.
               sint (flap_count_ms (snd (tr ! k))) = max 0 (8000 - 10 * (int k + 2)) \<and>
               filter is_mc_duty (fst (tr ! k)) =
                 (if 800 \<le> k + 2 then [Mc_interface_set_duty 0] else []))"
proof -
  define s1 where "s1 = snd (my_thread_tick i0 s0)"
  have c: "sint (flap_count_ms s1) = 10 * int 799"
    using assms(1) by (simp add: s1_def fired_count_ms)
  have st: "\<not> stop_now s1"
    using assms(2) by (simp add: s1_def tick_fields)
  have q: "list_all no_toggle (iterations inps s1)"
    using assms(3) by (simp add: s1_def)
  note run = countdown_run [OF st c q]
  have "sint (flap_count_ms (snd (iterations inps s1 ! k))) = max 0 (8000 - 10 * (int k + 2)) \<and>
        filter is_mc_duty (fst (iterations inps s1 ! k)) =
          (if 800 \<le> k + 2 then [Mc_interface_set_duty 0] else [])"
    if "k < length inps" for k
  proof -
    have "sint (flap_count_ms (snd (iterations inps s1 ! k))) = 10 * int (799 - (k + 1)) \<and>
        filter is_mc_duty (fst (iterations inps s1 ! k)) =
          (if 799 \<le> k + 1 then [Mc_interface_set_duty 0] else [])"
      using run that by blast
    moreover have "10 * int (799 - (k + 1)) = max 0 (8000 - 10 * (int k + 2))"
      by (cases "k + 1 \<le> 799") (simp_all add: of_nat_diff max_def)
    moreover have "(799 \<le> k + 1) = (800 \<le> k + 2)" by auto
    ultimately show ?thesis by simp
  qed
  with run c show ?thesis
    unfolding Let_def s1_def [symmetric] by simp
qed

text \<open>
  The terminal command, then 799 iterations with no button touched: the 798th of them
  still sends no motor command, the 799th (the 800th decrement) sends duty 0 with the
  countdown at 0.
\<close>

theorem drive_countdown_cuts_duty_at_800th_decrement_witness:
  "flap_cond (counters_updated released (flap started_state)) \<and>
   \<not> stop_now (flap started_state) \<and>
   list_all no_toggle
     (iterations (replicate 799 released) (snd (my_thread_tick released (flap started_state)))) \<and>
   filter is_mc_duty
     (fst (iterations (replicate 799 released)
            (snd (my_thread_tick released (flap started_state))) ! 797)) = [] \<and>
   filter is_mc_duty
     (fst (iterations (replicate 799 released)
            (snd (my_thread_tick released (flap started_state))) ! 798)) =
     [Mc_interface_set_duty 0] \<and>
   sint (flap_count_ms
     (snd (iterations (replicate 799 released)
            (snd (my_thread_tick released (flap started_state))) ! 798))) = 0"
proof -
  define s1 where "s1 = snd (my_thread_tick released (flap started_state))"
  have f: "flap_cond (counters_updated released (flap started_state))"
    by (simp add: flap_cond_def counters_updated_fields flap_def)
  have st: "\<not> stop_now (flap started_state)"
    by (simp add: flap_def started_state_def)
  have s1: "\<not> stop_now s1" "\<not> cmd_flap_trigger s1" "flap_hold_cnt s1 = 0"
    using f st by (simp_all add: s1_def tick_fields)
  have q: "list_all no_toggle (iterations (replicate 799 released) s1)"
    using s1 by (rule quiet_run)
  have a: "\<forall>k<799.
      sint (flap_count_ms (snd (iterations (replicate 799 released) s1 ! k))) =
        max 0 (8000 - 10 * (int k + 2)) \<and>
      filter is_mc_duty (fst (iterations (replicate 799 released) s1 ! k)) =
        (if 800 \<le> k + 2 then [Mc_interface_set_duty 0] else [])"
    using drive_countdown_cuts_duty_at_800th_decrement [OF f st q [unfolded s1_def]]
    by (simp add: Let_def s1_def)
  have "(797::nat) < 799" "(798::nat) < 799" by simp_all
  with a have
    "filter is_mc_duty (fst (iterations (replicate 799 released) s1 ! 797)) = []"
    "filter is_mc_duty (fst (iterations (replicate 799 released) s1 ! 798)) =
       [Mc_interface_set_duty 0]"
    "sint (flap_count_ms (snd (iterations (replicate 799 released) s1 ! 798))) = 0"
    by force+
  with f st q show ?thesis
    unfolding s1_def by blast
qed

text \<open>
  C6, as the claim states it: every iteration of the loop body calls \<open>timeout_reset\<close>
  once. It does not hold of the iteration that finds \<open>stop_now\<close> set: lines 147--150
  return before line 152.
\<close>

theorem stopping_iteration_skips_timeout_reset:
  "stop_now (stop_request started_state) \<and>
   count_list (iter_events (my_thread_iter released (stop_request started_state))) Timeout_reset \<noteq> 1"
  by (simp add: stop_request_def my_thread_iter_def iter_events_def)

text \<open>
  C6, amended: every iteration that finds \<open>stop_now\<close> clear calls \<open>timeout_reset\<close>
  exactly once, as its first call, before the three pads are read and so before any
  condition is evaluated, whichever of the conditions fire.
\<close>

theorem timeout_reset_once_per_running_iteration:
  assumes "\<not> stop_now s"
  shows "\<exists>rest. iter_events (my_thread_iter inp s) =
           Timeout_reset # PalReadPad HW_ICU # PalReadPad HW_UART_RX # PalReadPad HW_UART_TX # rest \<and>
           Timeout_reset \<notin> set rest \<and> PalReadPad HW_ICU \<notin> set rest \<and>
           PalReadPad HW_UART_RX \<notin> set rest \<and> PalReadPad HW_UART_TX \<notin> set rest \<and>
           count_list (iter_events (my_thread_iter inp s)) Timeout_reset = 1"
  using assms
  by (simp add: my_thread_iter_def iter_events_def split_def tick_events toggle_log_def)

theorem timeout_reset_once_per_running_iteration_witness:
  "\<not> stop_now started_state \<and>
   count_list (iter_events (my_thread_iter released started_state)) Timeout_reset = 1 \<and>
   hd (iter_events (my_thread_iter released started_state)) = Timeout_reset"
proof -
  have h: "\<not> stop_now started_state" by (simp add: started_state_def)
  show ?thesis
    using timeout_reset_once_per_running_iteration [OF h, of released] h by auto
qed

text \<open>
  C7. The calls of one pass through the loop body are: the watchdog reset and the
  three reads; then, if the flap condition holds, the flap block's five calls; then,
  if the rxpin condition holds, the rxpin block's three calls; then, if the pio
  condition holds, the pio block's three calls; then the countdown's. Each condition
  is the one of the source evaluated on the counters as lines 160--174 left them, so
  whether a block runs does not depend on the blocks before it, and each block that
  runs clears its own counter.
\<close>

theorem conditions_fire_independently_in_order:
  "let c = counters_updated inp s;
       (ev, s') = my_thread_tick inp s;
       duty = utils_map (real_of_int (sint (flap_direction s'))) 0 1 (- l_max_duty inp) (l_max_duty inp)
   in ev =
        [Timeout_reset, PalReadPad HW_ICU, PalReadPad HW_UART_RX, PalReadPad HW_UART_TX] @
        (if 10 <s flap_hold_cnt c \<or> cmd_flap_trigger c then
           [Commands_printf ''flap button pressed'', toggle_log (flap_direction s'),
            Comm_can_set_duty 99 duty, Mc_interface_set_duty duty, ChThdSleepMilliseconds 500]
         else []) @
        (if 5 <s rxpin_hold_cnt c then
           [Commands_printf ''rxpin button pressed'', Comm_can_set_current 99 1,
            ChThdSleepMilliseconds 500]
         else []) @
        (if 5 <s pio_hold_cnt c then
           [Commands_printf ''piopin button pressed'', Comm_can_set_current_brake 99 1,
            ChThdSleepMilliseconds 500]
         else []) @
        (if flap_count_ms s' \<le>s 0 then [Mc_interface_set_duty 0] else []) @
        [ChThdSleepMilliseconds 10] \<and>
      flap_hold_cnt s' = (if 10 <s flap_hold_cnt c \<or> cmd_flap_trigger c then 0 else flap_hold_cnt c) \<and>
      rxpin_hold_cnt s' = (if 5 <s rxpin_hold_cnt c then 0 else rxpin_hold_cnt c) \<and>
      pio_hold_cnt s' = (if 5 <s pio_hold_cnt c then 0 else pio_hold_cnt c)"
proof -
  have d: "flap_cond (counters_updated inp s) \<Longrightarrow>
           flap_direction (snd (my_thread_tick inp s)) = toggled (flap_direction s)"
    by (simp add: tick_fields)
  have e: "fst (my_thread_tick inp s) =
     [Timeout_reset, PalReadPad HW_ICU, PalReadPad HW_UART_RX, PalReadPad HW_UART_TX] @
     (if flap_cond (counters_updated inp s) then
        [Commands_printf ''flap button pressed'',
         toggle_log (flap_direction (snd (my_thread_tick inp s))),
         Comm_can_set_duty 99 (flap_duty inp (flap_direction (snd (my_thread_tick inp s)))),
         Mc_interface_set_duty (flap_duty inp (flap_direction (snd (my_thread_tick inp s)))),
         ChThdSleepMilliseconds 500]
      else []) @
     (if rxpin_cond (counters_updated inp s) then
        [Commands_printf ''rxpin button pressed'', Comm_can_set_current 99 1,
         ChThdSleepMilliseconds 500]
      else []) @
     (if pio_cond (counters_updated inp s) then
        [Commands_printf ''piopin button pressed'', Comm_can_set_current_brake 99 1,
         ChThdSleepMilliseconds 500]
      else []) @
     (if flap_count_ms (snd (my_thread_tick inp s)) \<le>s 0 then [Mc_interface_set_duty 0] else []) @
     [ChThdSleepMilliseconds 10]"
    using d by (subst tick_events) simp
  show ?thesis
    unfolding Let_def split_def
    apply (subst e)
    apply (simp only: tick_fields(1,2,3) flap_cond_def rxpin_cond_def pio_cond_def flap_duty_def)
    done
qed

text \<open>The three counters one step below firing and every button pressed: all three fire.\<close>

theorem conditions_fire_independently_in_order_witness:
  "fst (my_thread_tick all_pressed all_held) =
     [Timeout_reset, PalReadPad HW_ICU, PalReadPad HW_UART_RX, PalReadPad HW_UART_TX,
      Commands_printf ''flap button pressed'', Commands_printf ''new flap direction open\<newline>'',
      Comm_can_set_duty 99 0.95, Mc_interface_set_duty 0.95, ChThdSleepMilliseconds 500,
      Commands_printf ''rxpin button pressed'', Comm_can_set_current 99 1,
      ChThdSleepMilliseconds 500,
      Commands_printf ''piopin button pressed'', Comm_can_set_current_brake 99 1,
      ChThdSleepMilliseconds 500,
      ChThdSleepMilliseconds 10] \<and>
   flap_hold_cnt (snd (my_thread_tick all_pressed all_held)) = 0 \<and>
   rxpin_hold_cnt (snd (my_thread_tick all_pressed all_held)) = 0 \<and>
   pio_hold_cnt (snd (my_thread_tick all_pressed all_held)) = 0"
proof -
  have c: "flap_hold_cnt (counters_updated all_pressed all_held) = 11"
    "rxpin_hold_cnt (counters_updated all_pressed all_held) = 6"
    "pio_hold_cnt (counters_updated all_pressed all_held) = 6"
    by (simp_all add: counters_updated_fields hold_cnt_update_def all_pressed_def all_held_def
          started_state_def)
  have f: "flap_cond (counters_updated all_pressed all_held)"
    by (simp add: flap_cond_def c signed_consts)
  have s': "flap_direction (snd (my_thread_tick all_pressed all_held)) = 1"
    "flap_count_ms (snd (my_thread_tick all_pressed all_held)) = 7990"
    using f
    by (simp_all add: tick_fields count_down_8000 toggled_def all_held_def started_state_def
          FLAP_OPEN_def)
  have l: "l_max_duty all_pressed = 0.95" by (simp add: all_pressed_def)
  show ?thesis
    using conditions_fire_independently_in_order [of all_pressed all_held]
    by (simp add: Let_def split_def c s' l signed_consts toggle_log_def direction_label_def
          utils_map_def)
qed

text \<open>
  C8. From either direction, \<open>flap_toggle\<close> moves to the other one, and a second call
  restores the state it started from.
\<close>

theorem flap_toggle_involution:
  assumes "flap_direction s = FLAP_OPEN \<or> flap_direction s = FLAP_CLOSE"
  shows "snd (flap_toggle (snd (flap_toggle s))) = s \<and>
         flap_direction (snd (flap_toggle s)) \<noteq> flap_direction s \<and>
         flap_direction (snd (flap_toggle s)) =
           (if flap_direction s = FLAP_OPEN then FLAP_CLOSE else FLAP_OPEN)"
  using assms by (auto simp add: flap_toggle_def Let_def FLAP_OPEN_def FLAP_CLOSE_def)

theorem flap_toggle_involution_witness:
  "(flap_direction started_state = FLAP_OPEN \<or> flap_direction started_state = FLAP_CLOSE) \<and>
   flap_direction (snd (flap_toggle started_state)) = FLAP_CLOSE \<and>
   snd (flap_toggle (snd (flap_toggle started_state))) = started_state"
  using flap_toggle_involution [of started_state]
  by (simp add: started_state_def FLAP_OPEN_def FLAP_CLOSE_def)

text \<open>
  C9. \<open>flap_toggle\<close> leaves the direction at 1 or 0. It prints "open" exactly when
  the direction it leaves is 1, the value named \<open>FLAP_CLOSE\<close>, and "close" exactly
  when it is 0, the value named \<open>FLAP_OPEN\<close>.
\<close>

theorem flap_toggle_label_inverted:
  "let (ev, s') = flap_toggle s
   in (flap_direction s' = FLAP_CLOSE \<or> flap_direction s' = FLAP_OPEN) \<and>
      (ev = [Commands_printf ''new flap direction open\<newline>'']) = (flap_direction s' = FLAP_CLOSE) \<and>
      (ev = [Commands_printf ''new flap direction close\<newline>'']) = (flap_direction s' = FLAP_OPEN) \<and>
      (flap_direction s' = FLAP_CLOSE) = (flap_direction s' = 1) \<and>
      (flap_direction s' = FLAP_OPEN) = (flap_direction s' = 0)"
  by (simp add: flap_toggle_def Let_def direction_label_def FLAP_OPEN_def FLAP_CLOSE_def)

text \<open>From the start the direction is \<open>FLAP_OPEN\<close>; the toggle prints "open".\<close>

theorem flap_toggle_label_inverted_witness:
  "fst (flap_toggle started_state) = [Commands_printf ''new flap direction open\<newline>''] \<and>
   flap_direction (snd (flap_toggle started_state)) = FLAP_CLOSE"
  using flap_toggle_label_inverted [of started_state]
  by (simp add: split_def Let_def flap_toggle_def started_state_def direction_label_def
        FLAP_OPEN_def FLAP_CLOSE_def)

text \<open>
  C10. An iteration whose updated \<open>flap_hold_cnt\<close> exceeds 10 toggles once and leaves
  \<open>cmd_flap_trigger\<close> cleared; it does exactly what it would have done with the flag
  clear from the start, so a trigger pending at that moment leaves no trace. Over any
  later schedule in which the terminal command is not called again the flag stays
  clear, and an iteration started there toggles exactly when its own counter exceeds 10.
\<close>

theorem button_firing_consumes_pending_trigger:
  assumes "10 <s flap_hold_cnt (counters_updated inp s)" and "Terminal_flap \<notin> set steps"
  shows "let (ev, s') = my_thread_tick inp s; later = snd (my_thread_loop steps s')
         in toggles ev = 1 \<and>
            \<not> cmd_flap_trigger s' \<and>
            my_thread_tick inp s = my_thread_tick inp (s\<lparr>cmd_flap_trigger := False\<rparr>) \<and>
            \<not> cmd_flap_trigger later \<and>
            toggles (fst (my_thread_tick inp' later)) =
              (if 10 <s flap_hold_cnt (counters_updated inp' later) then 1 else 0)"
proof -
  have f: "flap_cond (counters_updated inp s)"
    using assms(1) by (simp add: flap_cond_def)
  have c: "\<not> cmd_flap_trigger (snd (my_thread_tick inp s))"
    by (simp add: tick_fields)
  have l: "\<not> cmd_flap_trigger (snd (my_thread_loop steps (snd (my_thread_tick inp s))))"
    using c assms(2) by (rule trigger_clear_loop)
  have t: "toggles (fst (my_thread_tick inp s)) = 1"
    using f by (simp add: toggles_tick)
  have n: "toggles (fst (my_thread_tick inp' (snd (my_thread_loop steps (snd (my_thread_tick inp s)))))) =
      (if 10 <s flap_hold_cnt (counters_updated inp'
             (snd (my_thread_loop steps (snd (my_thread_tick inp s))))) then 1 else 0)"
    using l by (simp add: toggles_tick flap_cond_def counters_updated_fields)
  show ?thesis
    unfolding split_def Let_def
    using t c l n tick_trigger_irrelevant [OF assms(1)] by blast
qed

text \<open>
  The flap button held for ten iterations, the terminal command, and the button still
  held: one toggle, the flag cleared, and it stays clear over two quiet iterations.
\<close>

theorem button_firing_consumes_pending_trigger_witness:
  "cmd_flap_trigger (flap held_10) \<and>
   10 <s flap_hold_cnt (counters_updated flap_pressed (flap held_10)) \<and>
   Terminal_flap \<notin> set [Iteration released, Iteration released] \<and>
   toggles (fst (my_thread_tick flap_pressed (flap held_10))) = 1 \<and>
   \<not> cmd_flap_trigger (snd (my_thread_tick flap_pressed (flap held_10))) \<and>
   \<not> cmd_flap_trigger
       (snd (my_thread_loop [Iteration released, Iteration released]
              (snd (my_thread_tick flap_pressed (flap held_10)))))"
proof -
  have g: "cmd_flap_trigger (flap held_10)" by (simp add: flap_def)
  have h: "10 <s flap_hold_cnt (counters_updated flap_pressed (flap held_10))"
    by (simp add: counters_updated_fields hold_cnt_update_def flap_pressed_def flap_def
          held_10_cnt signed_consts)
  have n: "Terminal_flap \<notin> set [Iteration released, Iteration released]" by simp
  show ?thesis
    using button_firing_consumes_pending_trigger [OF h n, of released, unfolded split_def Let_def]
      g h n
    by blast
qed

end
